theory Spec2Isabelle
  imports Main
begin

section \<open>The voice agent's session policy (agent.py, entrypoint)\<close>

text \<open>
  The entrypoint of agent.py is glue around a voice-agent framework. The framework calls
  (connect, wait_for_participant, the agent's start, say, listen, respond and tts.stop)
  are not part of the repository: the model takes the outcome of each call as an input
  and records every call, and every assignment to the two flags, in a trace. What is
  modelled from the source is the control flow of the entrypoint: the order of the calls,
  the two flags, and the three try/except blocks of the loop body.

  The logging calls, the construction of the chat context and of the agent's components,
  and the metrics callback take no part in the control flow and are left out. The
  framework calls are taken not to assign the two flags themselves: first_response_done
  is a local variable of the entrypoint, and agent.allow_interruptions is written only by
  the assignments of the entrypoint. The session is the finite list of utterances that
  agent.listen() yields before it ends.
\<close>

subsection \<open>Exceptions and the outcome of a framework call\<close>

text \<open>
  All three handlers of the source are written \<^verbatim>\<open>except Exception as e\<close>. Python
  enters such a handler only for an instance of the class Exception; an exception that
  derives from BaseException alone (asyncio.CancelledError, KeyboardInterrupt, SystemExit)
  passes through it. The string is the class name and message, for the reader only.
  A response that cannot be sliced for the log line (\<^verbatim>\<open>response[:50]\<close>, inside the try)
  raises a TypeError before say is called: for the control flow that is respond raising an
  instance of Exception.
\<close>

datatype py_exn = ExceptionInstance string | BaseExceptionOnly string

fun isinstance_Exception :: "py_exn \<Rightarrow> bool" where
  "isinstance_Exception (ExceptionInstance m) = True"
| "isinstance_Exception (BaseExceptionOnly m) = False"

type_synonym 'a result = "py_exn + 'a"

subsection \<open>Trace and state\<close>

text \<open>
  One event per framework call and per assignment to a flag. The last argument of
  \<open>Say\<close> is not an argument of the call: it is the value the attribute
  agent.allow_interruptions has while the call is made.
\<close>

datatype event =
    Connect
  | WaitForParticipant
  | CreateAgent bool
  | Start
  | Say string bool bool
  | Listen string
  | SetAllow bool
  | SetDone bool
  | TtsStop
  | Respond string

record state =
  first_response_done :: bool
  allow_interruptions :: bool
  trace :: "event list"

definition emit :: "event \<Rightarrow> state \<Rightarrow> state" where
  "emit ev s = s\<lparr>trace := trace s @ [ev]\<rparr>"

text \<open>\<^verbatim>\<open>agent.allow_interruptions = b\<close>\<close>

definition set_allow :: "bool \<Rightarrow> state \<Rightarrow> state" where
  "set_allow b s = emit (SetAllow b) (s\<lparr>allow_interruptions := b\<rparr>)"

text \<open>\<^verbatim>\<open>first_response_done = b\<close>\<close>

definition set_done :: "bool \<Rightarrow> state \<Rightarrow> state" where
  "set_done b s = emit (SetDone b) (s\<lparr>first_response_done := b\<rparr>)"

text \<open>\<^verbatim>\<open>await agent.say(txt, allow_interruptions=kw)\<close>, the call itself.\<close>

definition say :: "string \<Rightarrow> bool \<Rightarrow> state \<Rightarrow> state" where
  "say txt kw s = emit (Say txt kw (allow_interruptions s)) s"

text \<open>The events a run has added to the trace between two states.\<close>

definition new_events :: "state \<Rightarrow> state \<Rightarrow> event list" where
  "new_events s s' = drop (length (trace s)) (trace s')"

text \<open>The utterances that agent.listen() has handed to the loop, in order.\<close>

fun heard :: "event list \<Rightarrow> string list" where
  "heard [] = []"
| "heard (Listen t # evs) = t # heard evs"
| "heard (ev # evs) = heard evs"

subsection \<open>The inputs: what the framework does in one turn and in one session\<close>

text \<open>
  One recognised utterance, with the outcome of each framework call the loop body may
  make while handling it.
\<close>

record utterance =
  text_of :: string
  stop_result :: "unit result"
  respond_result :: "string result"
  say_result :: "unit result"

record session =
  connect_result :: "unit result"
  wait_result :: "string result"
  start_result :: "unit result"
  greeting_result :: "unit result"
  utterances :: "utterance list"

subsection \<open>try / except Exception\<close>

text \<open>
  \<^verbatim>\<open>try: body  except Exception as e: handler\<close>. The handler runs only for an instance of
  Exception, in the state the body had reached; anything else the body raises goes on.
\<close>

definition try_except_Exception ::
  "(state \<Rightarrow> unit result \<times> state) \<Rightarrow> (py_exn \<Rightarrow> state \<Rightarrow> unit result \<times> state)
    \<Rightarrow> state \<Rightarrow> unit result \<times> state" where
  "try_except_Exception body handler s =
     (case body s of
        (Inr v, s') \<Rightarrow> (Inr v, s')
      | (Inl e, s') \<Rightarrow> if isinstance_Exception e then handler e s' else (Inl e, s'))"

subsection \<open>The loop body\<close>

text \<open>
  Lines 85 to 98, the body of the first turn's try:
  \<^verbatim>\<open>
  response = await agent.respond(text)
  await agent.say(response, allow_interruptions=False)
  first_response_done = True
  agent.allow_interruptions = True
  \<close>
\<close>

definition first_response :: "utterance \<Rightarrow> state \<Rightarrow> unit result \<times> state" where
  "first_response u s =
     (let s1 = emit (Respond (text_of u)) s in
      case respond_result u of
        Inl e \<Rightarrow> (Inl e, s1)
      | Inr response \<Rightarrow>
          (let s2 = say response False s1 in
           case say_result u of
             Inl e \<Rightarrow> (Inl e, s2)
           | Inr _ \<Rightarrow> (Inr (), set_allow True (set_done True s2))))"

text \<open>
  Lines 100 to 103, the handler of the first turn:
  \<^verbatim>\<open>
  first_response_done = True
  agent.allow_interruptions = True
  \<close>
\<close>

definition first_response_failed :: "py_exn \<Rightarrow> state \<Rightarrow> unit result \<times> state" where
  "first_response_failed e s = (Inr (), set_allow True (set_done True s))"

text \<open>Lines 114 to 119: \<^verbatim>\<open>await agent.tts.stop()\<close>; its handler only logs.\<close>

definition stop_speech :: "utterance \<Rightarrow> state \<Rightarrow> unit result \<times> state" where
  "stop_speech u s =
     (let s1 = emit TtsStop s in
      case stop_result u of Inl e \<Rightarrow> (Inl e, s1) | Inr _ \<Rightarrow> (Inr (), s1))"

definition log_only :: "py_exn \<Rightarrow> state \<Rightarrow> unit result \<times> state" where
  "log_only e s = (Inr (), s)"

text \<open>
  Lines 121 to 128, the body of the second try of a later turn:
  \<^verbatim>\<open>
  response = await agent.respond(text)
  await agent.say(response, allow_interruptions=True)
  \<close>
\<close>

definition subsequent_response :: "utterance \<Rightarrow> state \<Rightarrow> unit result \<times> state" where
  "subsequent_response u s =
     (let s1 = emit (Respond (text_of u)) s in
      case respond_result u of
        Inl e \<Rightarrow> (Inl e, s1)
      | Inr response \<Rightarrow>
          (let s2 = say response True s1 in
           case say_result u of
             Inl e \<Rightarrow> (Inl e, s2)
           | Inr _ \<Rightarrow> (Inr (), s2)))"

text \<open>
  Lines 79 to 131, the body of the loop for one utterance: the first turn when
  first_response_done is false, a later turn otherwise.
\<close>

definition handle_utterance :: "utterance \<Rightarrow> state \<Rightarrow> unit result \<times> state" where
  "handle_utterance u s =
     (if \<not> first_response_done s then
        try_except_Exception (first_response u) first_response_failed (set_allow False s)
      else
        (let s1 = (if \<not> allow_interruptions s then set_allow True s else s) in
         case try_except_Exception (stop_speech u) log_only s1 of
           (Inl e, s2) \<Rightarrow> (Inl e, s2)
         | (Inr _, s2) \<Rightarrow> try_except_Exception (subsequent_response u) log_only s2))"

subsection \<open>The loop and the entrypoint\<close>

text \<open>
  \<^verbatim>\<open>async for text in agent.listen()\<close>, over the utterances the framework recognises in
  this session. An exception that leaves the loop body ends the loop.
\<close>

fun listen_loop :: "utterance list \<Rightarrow> state \<Rightarrow> unit result \<times> state" where
  "listen_loop [] s = (Inr (), s)"
| "listen_loop (u # us) s =
     (case handle_utterance u (emit (Listen (text_of u)) s) of
        (Inl e, s') \<Rightarrow> (Inl e, s')
      | (Inr _, s') \<Rightarrow> listen_loop us s')"

definition greeting :: string where
  "greeting = ''Hey, how can I help you today? I am Sara, your AI helper.''"

text \<open>
  The state at line 54: the room is connected, a participant has arrived,
  first_response_done is False and the agent is built with allow_interruptions=False.
\<close>

definition agent_initialized :: state where
  "agent_initialized =
     \<lparr>first_response_done = False, allow_interruptions = False,
      trace = [Connect, WaitForParticipant, CreateAgent False]\<rparr>"

text \<open>The state in which the loop starts: the agent is started and the greeting spoken.\<close>

definition greeted :: state where
  "greeted = say greeting False (emit Start agent_initialized)"

text \<open>
  The entrypoint, lines 36 to 131. It returns what the coroutine returns or raises, and
  the trace of what it did. Nothing outside the loop body is guarded by a handler.
\<close>

definition entrypoint :: "session \<Rightarrow> unit result \<times> event list" where
  "entrypoint env =
     (case connect_result env of
        Inl e \<Rightarrow> (Inl e, [Connect])
      | Inr _ \<Rightarrow>
     (case wait_result env of
        Inl e \<Rightarrow> (Inl e, [Connect, WaitForParticipant])
      | Inr participant \<Rightarrow>
     (case start_result env of
        Inl e \<Rightarrow> (Inl e, trace (emit Start agent_initialized))
      | Inr _ \<Rightarrow>
     (case greeting_result env of
        Inl e \<Rightarrow> (Inl e, trace greeted)
      | Inr _ \<Rightarrow>
          (case listen_loop (utterances env) greeted of (r, s) \<Rightarrow> (r, trace s))))))"

subsection \<open>Observations on traces and inputs\<close>

text \<open>
  Every \<open>Say\<close> of a list of events was made with the keyword allow_interruptions=b
  while the attribute agent.allow_interruptions was b.
\<close>

fun says_all :: "bool \<Rightarrow> event list \<Rightarrow> bool" where
  "says_all b [] = True"
| "says_all b (Say r kw a # evs) = (kw = b \<and> a = b \<and> says_all b evs)"
| "says_all b (ev # evs) = says_all b evs"

text \<open>
  A call outcome that an \<^verbatim>\<open>except Exception\<close> handler absorbs: a normal return, or a raised
  instance of Exception.
\<close>

fun catchable :: "'a result \<Rightarrow> bool" where
  "catchable (Inl e) = isinstance_Exception e"
| "catchable (Inr v) = True"

text \<open>
  Whatever the three guarded calls of a turn raise (tts.stop, respond, say) is an instance
  of Exception.
\<close>

definition raises_only_Exception :: "utterance \<Rightarrow> bool" where
  "raises_only_Exception u =
     (catchable (stop_result u) \<and> catchable (respond_result u) \<and> catchable (say_result u))"

text \<open>
  The exception, if any, that the pair respond / say of a turn raises: the one of respond,
  or else, when a response was generated, the one of say.
\<close>

definition raised_by_reply :: "utterance \<Rightarrow> py_exn option" where
  "raised_by_reply u =
     (case respond_result u of
        Inl e \<Rightarrow> Some e
      | Inr r \<Rightarrow> (case say_result u of Inl e \<Rightarrow> Some e | Inr _ \<Rightarrow> None))"

section \<open>Properties\<close>

subsection \<open>One turn\<close>

lemmas flag_ops = emit_def set_allow_def set_done_def say_def

lemmas turn_defs = handle_utterance_def try_except_Exception_def first_response_def
  first_response_failed_def stop_speech_def log_only_def subsequent_response_def

lemmas run_defs = turn_defs flag_ops Let_def new_events_def greeted_def agent_initialized_def
  entrypoint_def raised_by_reply_def raises_only_Exception_def

lemma says_all_append: "says_all b (xs @ ys) = (says_all b xs \<and> says_all b ys)"
  by (induction b xs rule: says_all.induct) simp_all

lemma heard_append: "heard (xs @ ys) = heard xs @ heard ys"
  by (induction xs rule: heard.induct) simp_all

lemma trace_greeted:
  "trace greeted = [Connect, WaitForParticipant, CreateAgent False, Start, Say greeting False False]"
  by (simp add: greeted_def agent_initialized_def flag_ops)

lemma new_events_append: "trace s' = trace s @ evs \<Longrightarrow> new_events s s' = evs"
  by (simp add: new_events_def)

text \<open>
  The first turn, case by case: respond raises, say raises, or both return. An instance of
  Exception ends in the handler, which sets both flags; any other exception leaves the
  loop body with first_response_done still false.
\<close>

lemma first_turn_cases:
  assumes "\<not> first_response_done s"
  shows "handle_utterance u s =
    (case respond_result u of
       Inl e \<Rightarrow>
         if isinstance_Exception e
         then (Inr (), s\<lparr>first_response_done := True, allow_interruptions := True,
                 trace := trace s @ [SetAllow False, Respond (text_of u), SetDone True, SetAllow True]\<rparr>)
         else (Inl e, s\<lparr>allow_interruptions := False,
                 trace := trace s @ [SetAllow False, Respond (text_of u)]\<rparr>)
     | Inr r \<Rightarrow>
        (case say_result u of
           Inl e \<Rightarrow>
             if isinstance_Exception e
             then (Inr (), s\<lparr>first_response_done := True, allow_interruptions := True,
                 trace := trace s @ [SetAllow False, Respond (text_of u), Say r False False,
                                      SetDone True, SetAllow True]\<rparr>)
             else (Inl e, s\<lparr>allow_interruptions := False,
                 trace := trace s @ [SetAllow False, Respond (text_of u), Say r False False]\<rparr>)
         | Inr _ \<Rightarrow>
             (Inr (), s\<lparr>first_response_done := True, allow_interruptions := True,
                 trace := trace s @ [SetAllow False, Respond (text_of u), Say r False False,
                                      SetDone True, SetAllow True]\<rparr>)))"
  using assms
  by (auto simp: handle_utterance_def try_except_Exception_def first_response_def
      first_response_failed_def flag_ops Let_def split: sum.splits)

lemma first_turn_trace:
  assumes "\<not> first_response_done s"
  shows "\<exists>evs. trace (snd (handle_utterance u s)) =
            trace s @ SetAllow False # Respond (text_of u) # evs
          \<and> SetDone False \<notin> set evs
          \<and> says_all False evs
          \<and> (\<forall>r. respond_result u = Inr r \<longrightarrow> (\<exists>evs'. evs = Say r False False # evs'))"
  using assms
  by (auto simp: turn_defs flag_ops Let_def split: sum.splits)

lemma later_turn_trace:
  assumes "first_response_done s"
  shows "\<exists>rest. trace (snd (handle_utterance u s)) =
            trace s @ (if allow_interruptions s then [] else [SetAllow True]) @ TtsStop # rest
          \<and> TtsStop \<notin> set rest
          \<and> SetDone False \<notin> set rest
          \<and> says_all True rest
          \<and> (\<forall>r. stop_result u = Inr () \<and> respond_result u = Inr r
                 \<longrightarrow> rest = [Respond (text_of u), Say r True True])"
  using assms
  by (auto simp: turn_defs flag_ops Let_def split: sum.splits)

lemma later_turn_flags:
  assumes "first_response_done s"
  shows "first_response_done (snd (handle_utterance u s))
       \<and> allow_interruptions (snd (handle_utterance u s))"
  using assms
  by (auto simp: turn_defs flag_ops Let_def split: sum.splits)

lemma turn_extends_trace:
  "\<exists>evs. trace (snd (handle_utterance u s)) = trace s @ evs \<and> SetDone False \<notin> set evs"
proof (cases "first_response_done s")
  case True
  from later_turn_trace [OF True, of u] show ?thesis by auto
next
  case False
  from first_turn_trace [OF False, of u] show ?thesis by auto
qed

lemma turn_hears_nothing:
  "\<exists>evs. trace (snd (handle_utterance u s)) = trace s @ evs \<and> heard evs = []"
  by (cases "first_response_done s")
    (auto simp: turn_defs flag_ops Let_def split: sum.splits)

lemma turn_catchable:
  "raises_only_Exception u \<Longrightarrow> fst (handle_utterance u s) = Inr ()"
  by (cases "first_response_done s")
    (auto simp: raises_only_Exception_def turn_defs flag_ops Let_def split: sum.splits)

subsection \<open>The loop and the entrypoint\<close>

lemma loop_catchable:
  "list_all raises_only_Exception us \<Longrightarrow>
     \<exists>evs. fst (listen_loop us s) = Inr () \<and> trace (snd (listen_loop us s)) = trace s @ evs
          \<and> heard evs = map text_of us"
proof (induction us arbitrary: s)
  case Nil
  show ?case by simp
next
  case (Cons u us)
  let ?s0 = "emit (Listen (text_of u)) s"
  obtain r s1 where h: "handle_utterance u ?s0 = (r, s1)"
    by (cases "handle_utterance u ?s0")
  from Cons.prems have "raises_only_Exception u" and rest: "list_all raises_only_Exception us"
    by simp_all
  with turn_catchable [of u ?s0] h have r: "r = Inr ()" by simp
  from turn_hears_nothing [of u ?s0] h obtain evs1
    where t1: "trace s1 = trace s @ Listen (text_of u) # evs1" and h1: "heard evs1 = []"
    by (auto simp: emit_def)
  from Cons.IH [OF rest, of s1] obtain evs2
    where ok: "fst (listen_loop us s1) = Inr ()"
      and t2: "trace (snd (listen_loop us s1)) = trace s1 @ evs2"
      and h2: "heard evs2 = map text_of us"
    by blast
  have "listen_loop (u # us) s = listen_loop us s1"
    using h r by simp
  with ok t1 t2 h1 h2 show ?case
    by (simp add: heard_append)
qed

lemma loop_later_turns:
  "first_response_done s \<Longrightarrow>
     \<exists>evs. trace (snd (listen_loop us s)) = trace s @ evs
          \<and> says_all True evs
          \<and> first_response_done (snd (listen_loop us s))
          \<and> (allow_interruptions s \<longrightarrow> allow_interruptions (snd (listen_loop us s)))"
proof (induction us arbitrary: s)
  case Nil
  then show ?case by simp
next
  case (Cons u us)
  let ?s0 = "emit (Listen (text_of u)) s"
  have d0: "first_response_done ?s0" using Cons.prems by (simp add: emit_def)
  obtain r s1 where h: "handle_utterance u ?s0 = (r, s1)"
    by (cases "handle_utterance u ?s0")
  from later_turn_flags [OF d0, of u] h
  have d1: "first_response_done s1" and a1: "allow_interruptions s1" by simp_all
  from later_turn_trace [OF d0, of u] h obtain evs1
    where t1: "trace s1 = trace s @ Listen (text_of u) # evs1"
      and says1: "says_all True evs1"
    by (auto simp: emit_def says_all_append split: if_splits)
  show ?case
  proof (cases r)
    case (Inl e)
    with h have "listen_loop (u # us) s = (Inl e, s1)" by simp
    with t1 says1 d1 a1 show ?thesis by simp
  next
    case (Inr v)
    with h have eq: "listen_loop (u # us) s = listen_loop us s1" by simp
    from Cons.IH [OF d1] obtain evs2
      where t2: "trace (snd (listen_loop us s1)) = trace s1 @ evs2"
        and says2: "says_all True evs2"
        and d2: "first_response_done (snd (listen_loop us s1))"
        and a2: "allow_interruptions s1 \<longrightarrow> allow_interruptions (snd (listen_loop us s1))"
      by blast
    from eq t1 t2 says1 says2 d2 a1 a2 show ?thesis by (simp add: says_all_append)
  qed
qed

lemma loop_never_resets:
  "\<exists>evs. trace (snd (listen_loop us s)) = trace s @ evs \<and> SetDone False \<notin> set evs"
proof (induction us arbitrary: s)
  case Nil
  show ?case by simp
next
  case (Cons u us)
  let ?s0 = "emit (Listen (text_of u)) s"
  obtain r s1 where h: "handle_utterance u ?s0 = (r, s1)"
    by (cases "handle_utterance u ?s0")
  from turn_extends_trace [of u ?s0] h obtain evs1
    where t1: "trace s1 = trace s @ Listen (text_of u) # evs1"
      and n1: "SetDone False \<notin> set evs1"
    by (auto simp: emit_def)
  show ?case
  proof (cases r)
    case (Inl e)
    with h t1 n1 show ?thesis by auto
  next
    case (Inr v)
    with h have eq: "listen_loop (u # us) s = listen_loop us s1" by simp
    from Cons.IH [of s1] obtain evs2
      where "trace (snd (listen_loop us s1)) = trace s1 @ evs2" "SetDone False \<notin> set evs2"
      by blast
    with eq t1 n1 show ?thesis by auto
  qed
qed

lemma loop_keeps_done:
  "first_response_done s \<Longrightarrow> first_response_done (snd (listen_loop us s))"
  using loop_later_turns [of s us] by blast

lemma entrypoint_loop:
  assumes "connect_result env = Inr ()" and "wait_result env = Inr p"
    and "start_result env = Inr ()" and "greeting_result env = Inr ()"
  shows "entrypoint env =
           (fst (listen_loop (utterances env) greeted),
            trace (snd (listen_loop (utterances env) greeted)))"
  using assms by (simp add: entrypoint_def split: prod.splits)

lemma entrypoint_never_resets: "SetDone False \<notin> set (snd (entrypoint env))"
proof -
  from loop_never_resets [of "utterances env" greeted] obtain evs
    where "trace (snd (listen_loop (utterances env) greeted)) = trace greeted @ evs"
      and "SetDone False \<notin> set evs"
    by blast
  then show ?thesis
    by (auto simp: entrypoint_def trace_greeted agent_initialized_def emit_def
        split: sum.splits prod.splits)
qed

section \<open>The statements of the specification\<close>

text \<open>
  C1. First utterance: the reply is delivered with interruptions disabled. In any state
  where first_response_done is false, the first thing the turn does is the assignment
  agent.allow_interruptions = False, then respond is called; every say of the turn has the
  keyword allow_interruptions=False and is made while the attribute is False; and when
  respond returns a response r, the next call is say(r, allow_interruptions=False).
\<close>

theorem first_reply_interruptions_disabled:
  assumes "\<not> first_response_done s"
  shows "\<exists>evs. new_events s (snd (handle_utterance u s)) =
                 SetAllow False # Respond (text_of u) # evs
             \<and> says_all False evs
             \<and> (\<forall>r. respond_result u = Inr r \<longrightarrow> (\<exists>evs'. evs = Say r False False # evs'))"
proof -
  from first_turn_trace [OF assms, of u] obtain evs
    where t: "trace (snd (handle_utterance u s)) = trace s @ SetAllow False # Respond (text_of u) # evs"
      and rest: "says_all False evs"
        "\<forall>r. respond_result u = Inr r \<longrightarrow> (\<exists>evs'. evs = Say r False False # evs')"
    by blast
  from t have "new_events s (snd (handle_utterance u s)) = SetAllow False # Respond (text_of u) # evs"
    by (rule new_events_append)
  with rest show ?thesis by blast
qed

theorem first_reply_interruptions_disabled_witness:
  "\<not> first_response_done greeted
   \<and> new_events greeted (snd (handle_utterance
        \<lparr>text_of = ''hello'', stop_result = Inr (), respond_result = Inr ''hi there'',
         say_result = Inr ()\<rparr> greeted))
     = [SetAllow False, Respond ''hello'', Say ''hi there'' False False, SetDone True,
        SetAllow True]"
  using first_reply_interruptions_disabled [of greeted
      "\<lparr>text_of = ''hello'', stop_result = Inr (), respond_result = Inr ''hi there'',
        say_result = Inr ()\<rparr>"]
  by (simp add: run_defs)

text \<open>
  C2. Once the first turn has completed, by success or by a caught exception (the loop
  body returns normally), both flags are true; in all the turns that follow, every say has
  the keyword allow_interruptions=True and is made while the attribute is True, and the
  attribute is still True when the loop ends.
\<close>

theorem interruptions_enabled_after_first_turn:
  assumes "\<not> first_response_done s" and "handle_utterance u s = (Inr (), s1)"
  shows "allow_interruptions s1 \<and> first_response_done s1
       \<and> says_all True (new_events s1 (snd (listen_loop us s1)))
       \<and> allow_interruptions (snd (listen_loop us s1))"
proof -
  from assms have flags: "allow_interruptions s1 \<and> first_response_done s1"
    by (auto simp: first_turn_cases split: sum.splits if_splits)
  then have d1: "first_response_done s1" ..
  from loop_later_turns [OF d1, of us] obtain evs
    where "trace (snd (listen_loop us s1)) = trace s1 @ evs" "says_all True evs"
      "allow_interruptions s1 \<longrightarrow> allow_interruptions (snd (listen_loop us s1))"
    by blast
  with flags show ?thesis by (simp add: new_events_append)
qed

theorem interruptions_enabled_after_first_turn_witness:
  "\<not> first_response_done greeted
   \<and> handle_utterance
        \<lparr>text_of = ''hello'', stop_result = Inr (),
         respond_result = Inl (ExceptionInstance ''RuntimeError: llm unavailable''),
         say_result = Inr ()\<rparr> greeted
     = (Inr (), greeted\<lparr>first_response_done := True, allow_interruptions := True,
          trace := trace greeted @ [SetAllow False, Respond ''hello'', SetDone True, SetAllow True]\<rparr>)
   \<and> new_events
        (greeted\<lparr>first_response_done := True, allow_interruptions := True,
          trace := trace greeted @ [SetAllow False, Respond ''hello'', SetDone True, SetAllow True]\<rparr>)
        (snd (listen_loop
          [\<lparr>text_of = ''what is the weather'', stop_result = Inr (),
            respond_result = Inr ''sunny'', say_result = Inr ()\<rparr>]
          (greeted\<lparr>first_response_done := True, allow_interruptions := True,
            trace := trace greeted @ [SetAllow False, Respond ''hello'', SetDone True, SetAllow True]\<rparr>)))
     = [Listen ''what is the weather'', TtsStop, Respond ''what is the weather'',
        Say ''sunny'' True True]"
  using interruptions_enabled_after_first_turn [of greeted
      "\<lparr>text_of = ''hello'', stop_result = Inr (),
         respond_result = Inl (ExceptionInstance ''RuntimeError: llm unavailable''),
         say_result = Inr ()\<rparr>"
      "greeted\<lparr>first_response_done := True, allow_interruptions := True,
          trace := trace greeted @ [SetAllow False, Respond ''hello'', SetDone True, SetAllow True]\<rparr>"
      "[\<lparr>text_of = ''what is the weather'', stop_result = Inr (),
            respond_result = Inr ''sunny'', say_result = Inr ()\<rparr>]"]
  by (simp add: run_defs)

text \<open>
  C3. A later turn that starts with agent.allow_interruptions false first assigns True to
  it: the assignment is the first event of the turn, before tts.stop, respond and say, so
  every say of the turn finds the attribute True, and it is True when the turn ends.
\<close>

theorem later_turn_reenables_interruptions:
  assumes "first_response_done s" and "\<not> allow_interruptions s"
  shows "\<exists>rest. new_events s (snd (handle_utterance u s)) = SetAllow True # TtsStop # rest
             \<and> says_all True rest
             \<and> allow_interruptions (snd (handle_utterance u s))"
proof -
  from later_turn_trace [OF assms(1), of u] assms(2) obtain rest
    where "trace (snd (handle_utterance u s)) = trace s @ SetAllow True # TtsStop # rest"
      and "says_all True rest"
    by auto
  with later_turn_flags [OF assms(1), of u] show ?thesis
    by (simp add: new_events_append)
qed

theorem later_turn_reenables_interruptions_witness:
  "first_response_done \<lparr>first_response_done = True, allow_interruptions = False, trace = []\<rparr>
   \<and> \<not> allow_interruptions \<lparr>first_response_done = True, allow_interruptions = False, trace = []\<rparr>
   \<and> new_events \<lparr>first_response_done = True, allow_interruptions = False, trace = []\<rparr>
        (snd (handle_utterance
          \<lparr>text_of = ''what is the weather'', stop_result = Inr (),
           respond_result = Inr ''sunny'', say_result = Inr ()\<rparr>
          \<lparr>first_response_done = True, allow_interruptions = False, trace = []\<rparr>))
     = [SetAllow True, TtsStop, Respond ''what is the weather'', Say ''sunny'' True True]"
  using later_turn_reenables_interruptions
    [of "\<lparr>first_response_done = True, allow_interruptions = False, trace = []\<rparr>"
        "\<lparr>text_of = ''what is the weather'', stop_result = Inr (),
           respond_result = Inr ''sunny'', say_result = Inr ()\<rparr>"]
  by (simp add: run_defs)

text \<open>
  C4, for the exceptions the handler names. If respond or say raises an instance of
  Exception in the first turn, the handler runs: the turn returns normally with
  first_response_done and agent.allow_interruptions both true.
\<close>

theorem first_turn_failure_handled:
  assumes "\<not> first_response_done s" and "raised_by_reply u = Some e"
    and "isinstance_Exception e"
  shows "\<exists>s'. handle_utterance u s = (Inr (), s')
            \<and> first_response_done s' \<and> allow_interruptions s'"
  using assms
  by (auto simp: first_turn_cases raised_by_reply_def split: sum.splits)

theorem first_turn_failure_handled_witness:
  "\<not> first_response_done greeted
   \<and> raised_by_reply
        \<lparr>text_of = ''hello'', stop_result = Inr (), respond_result = Inr ''hi there'',
         say_result = Inl (ExceptionInstance ''ConnectionError: tts'')\<rparr>
     = Some (ExceptionInstance ''ConnectionError: tts'')
   \<and> isinstance_Exception (ExceptionInstance ''ConnectionError: tts'')
   \<and> handle_utterance
        \<lparr>text_of = ''hello'', stop_result = Inr (), respond_result = Inr ''hi there'',
         say_result = Inl (ExceptionInstance ''ConnectionError: tts'')\<rparr> greeted
     = (Inr (), greeted\<lparr>first_response_done := True, allow_interruptions := True,
          trace := trace greeted @ [SetAllow False, Respond ''hello'',
            Say ''hi there'' False False, SetDone True, SetAllow True]\<rparr>)"
  using first_turn_failure_handled [of greeted
      "\<lparr>text_of = ''hello'', stop_result = Inr (), respond_result = Inr ''hi there'',
         say_result = Inl (ExceptionInstance ''ConnectionError: tts'')\<rparr>"
      "ExceptionInstance ''ConnectionError: tts''"]
  by (simp add: run_defs)

text \<open>
  C4 does not hold of every exception. The handler is \<^verbatim>\<open>except Exception\<close>: when
  respond is cancelled in the first turn (asyncio.CancelledError derives from BaseException
  only), no handler runs, both flags stay false and the exception leaves the loop body.
\<close>

theorem first_turn_failure_counterexample:
  "\<not> first_response_done greeted
   \<and> handle_utterance
        \<lparr>text_of = ''hello'', stop_result = Inr (),
         respond_result = Inl (BaseExceptionOnly ''asyncio.CancelledError''),
         say_result = Inr ()\<rparr> greeted
     = (Inl (BaseExceptionOnly ''asyncio.CancelledError''),
        greeted\<lparr>first_response_done := False, allow_interruptions := False,
          trace := trace greeted @ [SetAllow False, Respond ''hello'']\<rparr>)"
  by (simp add: run_defs)

text \<open>
  C5, for the exceptions the handlers name. When the session reaches the loop and whatever
  tts.stop, respond and say raise in its turns is an instance of Exception, nothing leaves
  the entrypoint: it returns normally, and the loop has consumed every recognised
  utterance, in order.
\<close>

theorem caught_exceptions_do_not_propagate:
  assumes "connect_result env = Inr ()" and "wait_result env = Inr p"
    and "start_result env = Inr ()" and "greeting_result env = Inr ()"
    and "list_all raises_only_Exception (utterances env)"
  shows "fst (entrypoint env) = Inr ()
       \<and> heard (snd (entrypoint env)) = map text_of (utterances env)"
proof -
  from loop_catchable [OF assms(5), of greeted] obtain evs
    where "fst (listen_loop (utterances env) greeted) = Inr ()"
      and "trace (snd (listen_loop (utterances env) greeted)) = trace greeted @ evs"
      and "heard evs = map text_of (utterances env)"
    by blast
  then show ?thesis
    by (simp add: entrypoint_loop [OF assms(1-4)] heard_append trace_greeted)
qed

theorem caught_exceptions_do_not_propagate_witness:
  "list_all raises_only_Exception
     [\<lparr>text_of = ''hello'', stop_result = Inr (),
       respond_result = Inl (ExceptionInstance ''RuntimeError: llm unavailable''),
       say_result = Inr ()\<rparr>,
      \<lparr>text_of = ''what is the weather'',
       stop_result = Inl (ExceptionInstance ''AttributeError: stop''),
       respond_result = Inr ''sunny'',
       say_result = Inl (ExceptionInstance ''ConnectionError: tts'')\<rparr>,
      \<lparr>text_of = ''thanks'', stop_result = Inr (), respond_result = Inr ''welcome'',
       say_result = Inr ()\<rparr>]
   \<and> entrypoint
        \<lparr>connect_result = Inr (), wait_result = Inr ''user-1'', start_result = Inr (),
         greeting_result = Inr (),
         utterances =
           [\<lparr>text_of = ''hello'', stop_result = Inr (),
             respond_result = Inl (ExceptionInstance ''RuntimeError: llm unavailable''),
             say_result = Inr ()\<rparr>,
            \<lparr>text_of = ''what is the weather'',
             stop_result = Inl (ExceptionInstance ''AttributeError: stop''),
             respond_result = Inr ''sunny'',
             say_result = Inl (ExceptionInstance ''ConnectionError: tts'')\<rparr>,
            \<lparr>text_of = ''thanks'', stop_result = Inr (), respond_result = Inr ''welcome'',
             say_result = Inr ()\<rparr>]\<rparr>
     = (Inr (),
        [Connect, WaitForParticipant, CreateAgent False, Start, Say greeting False False,
         Listen ''hello'', SetAllow False, Respond ''hello'', SetDone True, SetAllow True,
         Listen ''what is the weather'', TtsStop, Respond ''what is the weather'',
         Say ''sunny'' True True,
         Listen ''thanks'', TtsStop, Respond ''thanks'', Say ''welcome'' True True])"
  using caught_exceptions_do_not_propagate [of
      "\<lparr>connect_result = Inr (), wait_result = Inr ''user-1'', start_result = Inr (),
         greeting_result = Inr (),
         utterances =
           [\<lparr>text_of = ''hello'', stop_result = Inr (),
             respond_result = Inl (ExceptionInstance ''RuntimeError: llm unavailable''),
             say_result = Inr ()\<rparr>,
            \<lparr>text_of = ''what is the weather'',
             stop_result = Inl (ExceptionInstance ''AttributeError: stop''),
             respond_result = Inr ''sunny'',
             say_result = Inl (ExceptionInstance ''ConnectionError: tts'')\<rparr>,
            \<lparr>text_of = ''thanks'', stop_result = Inr (), respond_result = Inr ''welcome'',
             say_result = Inr ()\<rparr>]\<rparr>" "''user-1''"]
  by (simp add: run_defs)

text \<open>
  C5 does not hold of every exception. In the second turn of this session respond is
  cancelled: the exception is no instance of Exception, passes the handler, ends the loop
  and leaves the entrypoint; the third utterance is never consumed.
\<close>

theorem uncaught_exception_counterexample:
  "entrypoint
     \<lparr>connect_result = Inr (), wait_result = Inr ''user-1'', start_result = Inr (),
      greeting_result = Inr (),
      utterances =
        [\<lparr>text_of = ''hello'', stop_result = Inr (), respond_result = Inr ''hi there'',
          say_result = Inr ()\<rparr>,
         \<lparr>text_of = ''what is the weather'', stop_result = Inr (),
          respond_result = Inl (BaseExceptionOnly ''asyncio.CancelledError''),
          say_result = Inr ()\<rparr>,
         \<lparr>text_of = ''thanks'', stop_result = Inr (), respond_result = Inr ''welcome'',
          say_result = Inr ()\<rparr>]\<rparr>
   = (Inl (BaseExceptionOnly ''asyncio.CancelledError''),
      [Connect, WaitForParticipant, CreateAgent False, Start, Say greeting False False,
       Listen ''hello'', SetAllow False, Respond ''hello'', Say ''hi there'' False False,
       SetDone True, SetAllow True,
       Listen ''what is the weather'', TtsStop, Respond ''what is the weather''])"
  by (simp add: run_defs)

text \<open>
  C6. Session start. When connect, wait_for_participant, start and the greeting succeed,
  the trace is: connect, wait for a participant, build the agent with interruptions
  disabled, start it, say the greeting with allow_interruptions=False, and then the events
  of the loop. And in every run, if an utterance is consumed at all, the trace begins with
  these five events: no utterance is consumed before the greeting is spoken.
\<close>

theorem greeting_precedes_loop:
  "(connect_result env = Inr () \<and> wait_result env = Inr p \<and> start_result env = Inr ()
      \<and> greeting_result env = Inr ()
     \<longrightarrow> snd (entrypoint env) =
           [Connect, WaitForParticipant, CreateAgent False, Start, Say greeting False False]
           @ new_events greeted (snd (listen_loop (utterances env) greeted)))
   \<and> (Listen t \<in> set (snd (entrypoint env))
     \<longrightarrow> (\<exists>rest. snd (entrypoint env) =
           [Connect, WaitForParticipant, CreateAgent False, Start, Say greeting False False]
           @ rest))"
proof -
  from loop_never_resets [of "utterances env" greeted] obtain evs
    where t: "trace (snd (listen_loop (utterances env) greeted)) = trace greeted @ evs"
    by blast
  then have n: "new_events greeted (snd (listen_loop (utterances env) greeted)) = evs"
    by (rule new_events_append)
  show ?thesis
  proof (intro conjI impI)
    assume "connect_result env = Inr () \<and> wait_result env = Inr p
      \<and> start_result env = Inr () \<and> greeting_result env = Inr ()"
    then have "entrypoint env =
        (fst (listen_loop (utterances env) greeted),
         trace (snd (listen_loop (utterances env) greeted)))"
      by (simp add: entrypoint_loop)
    with t n show "snd (entrypoint env) =
        [Connect, WaitForParticipant, CreateAgent False, Start, Say greeting False False]
        @ new_events greeted (snd (listen_loop (utterances env) greeted))"
      by (simp add: trace_greeted)
  next
    assume "Listen t \<in> set (snd (entrypoint env))"
    with t show "\<exists>rest. snd (entrypoint env) =
        [Connect, WaitForParticipant, CreateAgent False, Start, Say greeting False False]
        @ rest"
      by (auto simp: entrypoint_def trace_greeted agent_initialized_def emit_def
          split: sum.splits prod.splits)
  qed
qed

theorem greeting_precedes_loop_witness:
  "Listen ''hello'' \<in> set (snd (entrypoint
        \<lparr>connect_result = Inr (), wait_result = Inr ''user-1'', start_result = Inr (),
         greeting_result = Inr (),
         utterances =
           [\<lparr>text_of = ''hello'', stop_result = Inr (), respond_result = Inr ''hi there'',
             say_result = Inr ()\<rparr>]\<rparr>))
   \<and> snd (entrypoint
        \<lparr>connect_result = Inr (), wait_result = Inr ''user-1'', start_result = Inr (),
         greeting_result = Inr (),
         utterances =
           [\<lparr>text_of = ''hello'', stop_result = Inr (), respond_result = Inr ''hi there'',
             say_result = Inr ()\<rparr>]\<rparr>)
     = [Connect, WaitForParticipant, CreateAgent False, Start, Say greeting False False,
        Listen ''hello'', SetAllow False, Respond ''hello'', Say ''hi there'' False False,
        SetDone True, SetAllow True]"
  using greeting_precedes_loop [of
      "\<lparr>connect_result = Inr (), wait_result = Inr ''user-1'', start_result = Inr (),
         greeting_result = Inr (),
         utterances =
           [\<lparr>text_of = ''hello'', stop_result = Inr (), respond_result = Inr ''hi there'',
             say_result = Inr ()\<rparr>]\<rparr>" "''user-1''" "''hello''"]
  by (simp add: run_defs)

text \<open>
  C7. A later turn calls tts.stop before anything else but the re-assertion of the flag,
  and never again in the turn; every say of the turn has allow_interruptions=True; when
  the stop returns and respond gives r, the rest of the turn is respond, then
  say(r, allow_interruptions=True).
\<close>

theorem stop_precedes_reply:
  assumes "first_response_done s"
  shows "\<exists>rest. new_events s (snd (handle_utterance u s)) =
                 (if allow_interruptions s then [] else [SetAllow True]) @ TtsStop # rest
             \<and> TtsStop \<notin> set rest
             \<and> says_all True rest
             \<and> (\<forall>r. stop_result u = Inr () \<and> respond_result u = Inr r
                    \<longrightarrow> rest = [Respond (text_of u), Say r True True])"
proof -
  from later_turn_trace [OF assms, of u] obtain rest
    where t: "trace (snd (handle_utterance u s)) =
               trace s @ (if allow_interruptions s then [] else [SetAllow True]) @ TtsStop # rest"
      and props: "TtsStop \<notin> set rest" "says_all True rest"
        "\<forall>r. stop_result u = Inr () \<and> respond_result u = Inr r
             \<longrightarrow> rest = [Respond (text_of u), Say r True True]"
    by blast
  from t have "new_events s (snd (handle_utterance u s)) =
      (if allow_interruptions s then [] else [SetAllow True]) @ TtsStop # rest"
    by (rule new_events_append)
  with props show ?thesis by blast
qed

theorem stop_precedes_reply_witness:
  "first_response_done \<lparr>first_response_done = True, allow_interruptions = True, trace = []\<rparr>
   \<and> new_events \<lparr>first_response_done = True, allow_interruptions = True, trace = []\<rparr>
        (snd (handle_utterance
          \<lparr>text_of = ''what is the weather'', stop_result = Inr (),
           respond_result = Inr ''sunny'', say_result = Inr ()\<rparr>
          \<lparr>first_response_done = True, allow_interruptions = True, trace = []\<rparr>))
     = [TtsStop, Respond ''what is the weather'', Say ''sunny'' True True]"
  using stop_precedes_reply
    [of "\<lparr>first_response_done = True, allow_interruptions = True, trace = []\<rparr>"
        "\<lparr>text_of = ''what is the weather'', stop_result = Inr (),
           respond_result = Inr ''sunny'', say_result = Inr ()\<rparr>"]
  by (simp add: run_defs)

text \<open>
  C8. first_response_done is false when the session starts; once true it stays true
  through a turn and through the whole loop; a first turn in which respond and say succeed
  sets it, after the reply is spoken; and no run of the entrypoint ever assigns False to
  it.
\<close>

theorem first_response_done_monotone:
  "\<not> first_response_done agent_initialized
   \<and> (first_response_done s
       \<longrightarrow> first_response_done (snd (handle_utterance u s))
         \<and> first_response_done (snd (listen_loop us s)))
   \<and> (\<not> first_response_done s0 \<and> respond_result u0 = Inr r \<and> say_result u0 = Inr ()
       \<longrightarrow> first_response_done (snd (handle_utterance u0 s0))
         \<and> new_events s0 (snd (handle_utterance u0 s0)) =
             [SetAllow False, Respond (text_of u0), Say r False False, SetDone True,
              SetAllow True])
   \<and> SetDone False \<notin> set (snd (entrypoint env))"
proof (intro conjI impI)
  show "\<not> first_response_done agent_initialized"
    by (simp add: agent_initialized_def)
next
  assume "first_response_done s"
  then show "first_response_done (snd (handle_utterance u s))"
    by (simp add: later_turn_flags)
next
  assume "first_response_done s"
  then show "first_response_done (snd (listen_loop us s))"
    by (rule loop_keeps_done)
next
  assume a: "\<not> first_response_done s0 \<and> respond_result u0 = Inr r \<and> say_result u0 = Inr ()"
  then show "first_response_done (snd (handle_utterance u0 s0))"
    by (simp add: first_turn_cases)
  from a show "new_events s0 (snd (handle_utterance u0 s0)) =
      [SetAllow False, Respond (text_of u0), Say r False False, SetDone True, SetAllow True]"
    by (simp add: first_turn_cases new_events_def)
next
  show "SetDone False \<notin> set (snd (entrypoint env))"
    by (rule entrypoint_never_resets)
qed

theorem first_response_done_monotone_witness:
  "first_response_done \<lparr>first_response_done = True, allow_interruptions = True, trace = []\<rparr>
   \<and> first_response_done (snd (listen_loop
        [\<lparr>text_of = ''what is the weather'', stop_result = Inr (),
          respond_result = Inl (ExceptionInstance ''RuntimeError: llm unavailable''),
          say_result = Inr ()\<rparr>,
         \<lparr>text_of = ''thanks'', stop_result = Inr (), respond_result = Inr ''welcome'',
          say_result = Inr ()\<rparr>]
        \<lparr>first_response_done = True, allow_interruptions = True, trace = []\<rparr>))
   \<and> \<not> first_response_done greeted
   \<and> first_response_done (snd (handle_utterance
        \<lparr>text_of = ''hello'', stop_result = Inr (), respond_result = Inr ''hi there'',
         say_result = Inr ()\<rparr> greeted))"
  using first_response_done_monotone
    [of "\<lparr>first_response_done = True, allow_interruptions = True, trace = []\<rparr>"
        "\<lparr>text_of = ''what is the weather'', stop_result = Inr (),
          respond_result = Inl (ExceptionInstance ''RuntimeError: llm unavailable''),
          say_result = Inr ()\<rparr>"
        "[\<lparr>text_of = ''what is the weather'', stop_result = Inr (),
          respond_result = Inl (ExceptionInstance ''RuntimeError: llm unavailable''),
          say_result = Inr ()\<rparr>,
         \<lparr>text_of = ''thanks'', stop_result = Inr (), respond_result = Inr ''welcome'',
          say_result = Inr ()\<rparr>]"
        greeted
        "\<lparr>text_of = ''hello'', stop_result = Inr (), respond_result = Inr ''hi there'',
         say_result = Inr ()\<rparr>"
        "''hi there''"]
  by (simp add: run_defs)

text \<open>
  C9. An exception raised by the say of the greeting, of whatever class, leaves the
  entrypoint: no handler covers the call, the run ends there and no utterance is
  consumed.
\<close>

theorem greeting_failure_propagates:
  assumes "connect_result env = Inr ()" and "wait_result env = Inr p"
    and "start_result env = Inr ()" and "greeting_result env = Inl e"
  shows "entrypoint env =
           (Inl e, [Connect, WaitForParticipant, CreateAgent False, Start,
                    Say greeting False False])
       \<and> heard (snd (entrypoint env)) = []"
  using assms by (simp add: entrypoint_def trace_greeted)

theorem greeting_failure_propagates_witness:
  "entrypoint
     \<lparr>connect_result = Inr (), wait_result = Inr ''user-1'', start_result = Inr (),
      greeting_result = Inl (ExceptionInstance ''ConnectionError: tts''),
      utterances =
        [\<lparr>text_of = ''hello'', stop_result = Inr (), respond_result = Inr ''hi there'',
          say_result = Inr ()\<rparr>]\<rparr>
   = (Inl (ExceptionInstance ''ConnectionError: tts''),
      [Connect, WaitForParticipant, CreateAgent False, Start, Say greeting False False])"
  using greeting_failure_propagates [of
      "\<lparr>connect_result = Inr (), wait_result = Inr ''user-1'', start_result = Inr (),
        greeting_result = Inl (ExceptionInstance ''ConnectionError: tts''),
        utterances =
          [\<lparr>text_of = ''hello'', stop_result = Inr (), respond_result = Inr ''hi there'',
            say_result = Inr ()\<rparr>]\<rparr>"
      "''user-1''" "ExceptionInstance ''ConnectionError: tts''"]
  by simp

text \<open>
  C10, for the exceptions the handler names. In a later turn, a tts.stop that raises an
  instance of Exception changes nothing in what follows: the turn is the one of a stop
  that returned, respond is called next, and a generated response r is spoken with
  say(r, allow_interruptions=True).
\<close>

theorem failed_stop_keeps_reply:
  assumes "first_response_done s" and "stop_result u = Inl e" and "isinstance_Exception e"
  shows "handle_utterance u s = handle_utterance (u\<lparr>stop_result := Inr ()\<rparr>) s
       \<and> (\<exists>rest. new_events s (snd (handle_utterance u s)) =
                   (if allow_interruptions s then [] else [SetAllow True])
                   @ TtsStop # Respond (text_of u) # rest
               \<and> (\<forall>r. respond_result u = Inr r \<longrightarrow> (\<exists>rest'. rest = Say r True True # rest')))"
  using assms
  by (auto simp: new_events_def turn_defs flag_ops Let_def split: sum.splits)

theorem failed_stop_keeps_reply_witness:
  "isinstance_Exception (ExceptionInstance ''AttributeError: stop'')
   \<and> new_events \<lparr>first_response_done = True, allow_interruptions = True, trace = []\<rparr>
        (snd (handle_utterance
          \<lparr>text_of = ''what is the weather'',
           stop_result = Inl (ExceptionInstance ''AttributeError: stop''),
           respond_result = Inr ''sunny'', say_result = Inr ()\<rparr>
          \<lparr>first_response_done = True, allow_interruptions = True, trace = []\<rparr>))
     = [TtsStop, Respond ''what is the weather'', Say ''sunny'' True True]"
  using failed_stop_keeps_reply
    [of "\<lparr>first_response_done = True, allow_interruptions = True, trace = []\<rparr>"
        "\<lparr>text_of = ''what is the weather'',
           stop_result = Inl (ExceptionInstance ''AttributeError: stop''),
           respond_result = Inr ''sunny'', say_result = Inr ()\<rparr>"
        "ExceptionInstance ''AttributeError: stop''"]
  by (simp add: run_defs)

text \<open>
  C10 does not hold of every failure of the stop. A tts.stop that is cancelled raises
  past its \<^verbatim>\<open>except Exception\<close> handler: the turn ends after the stop, respond and say
  are not called.
\<close>

theorem failed_stop_counterexample:
  "handle_utterance
     \<lparr>text_of = ''what is the weather'',
      stop_result = Inl (BaseExceptionOnly ''asyncio.CancelledError''),
      respond_result = Inr ''sunny'', say_result = Inr ()\<rparr>
     \<lparr>first_response_done = True, allow_interruptions = True, trace = []\<rparr>
   = (Inl (BaseExceptionOnly ''asyncio.CancelledError''),
      \<lparr>first_response_done = True, allow_interruptions = True, trace = [TtsStop]\<rparr>)"
  by (simp add: run_defs)

end
